theory Spec2Isabelle
  imports Main "HOL-Library.Word" "HOL-Library.Sublist" "HOL-Library.Multiset"
    "HOL-Library.Char_ord" "HOL-Library.List_Lexorder"
begin

section \<open>Dynamic values\<close>

text \<open>
  The encoder of \<^verbatim>\<open>main.go\<close> takes an \<^verbatim>\<open>interface{}\<close> and switches on its dynamic
  type. A value that can be a map key is a \<open>scalar\<close> (Go map keys are comparable values;
  maps and slices are not); a \<open>dyn\<close> is a map, a slice or a scalar.

  A floating-point number is carried as the text that \<^verbatim>\<open>%v\<close> prints for it: the conversion
  from binary to decimal is outside this development, and what matters here is that
  \<^verbatim>\<open>strconv\<close> writes only digits, a point, an exponent mark, signs and the words
  \<^verbatim>\<open>NaN\<close> and \<^verbatim>\<open>Inf\<close>.
\<close>

definition float_chars :: "char set" where
  "float_chars = set ''0123456789.e+-InfNa''"

typedef float_text = "{s :: string. set s \<subseteq> float_chars}"
  by (rule exI [of _ "[]"]) simp

lemma float_text_abstype [code abstype]: "Abs_float_text (Rep_float_text f) = f"
  by (rule Rep_float_text_inverse)

instantiation float_text :: equal
begin

definition equal_float_text :: "float_text \<Rightarrow> float_text \<Rightarrow> bool" where
  "equal_float_text a b = (Rep_float_text a = Rep_float_text b)"

instance
  by standard (simp add: equal_float_text_def Rep_float_text_inject)

end

text \<open>
  The integers are machine words; \<^verbatim>\<open>int\<close> and \<^verbatim>\<open>uint\<close> have 64 bits, as on the
  64-bit platforms. \<open>GoOther\<close> is a value of any other dynamic type (a pointer, a
  struct, a typed map, ...), carried as its \<^verbatim>\<open>%v\<close> text.
\<close>

datatype scalar =
    GoString string
  | GoInt "64 word"
  | GoInt64 "64 word"
  | GoInt32 "32 word"
  | GoInt16 "16 word"
  | GoInt8 "8 word"
  | GoUint "64 word"
  | GoUint8 "8 word"
  | GoUint16 "16 word"
  | GoUint32 "32 word"
  | GoUint64 "64 word"
  | GoFloat64 float_text
  | GoFloat32 float_text
  | GoBool bool
  | GoNil
  | GoOther string

text \<open>
  A \<^verbatim>\<open>map[interface{}]interface{}\<close> is an association list: the entries in the order in
  which \<^verbatim>\<open>range\<close> visits them on this run. Go does not fix that order, so two lists with
  the same entries stand for the same map.
\<close>

datatype dyn =
    GoMap "(scalar \<times> dyn) list"
  | GoSlice "dyn list"
  | GoScalar scalar

section \<open>Library functions the encoder calls\<close>

text \<open>\<^verbatim>\<open>%d\<close>: a natural number in decimal.\<close>

definition digit :: "nat \<Rightarrow> char" where
  "digit d = ''0123456789'' ! d"

function decimal :: "nat \<Rightarrow> string" where
  "decimal n = (if n < 10 then [digit n] else decimal (n div 10) @ [digit (n mod 10)])"
  by pat_completeness auto
termination
  by (relation "measure id") auto

declare decimal.simps [simp del]

definition signed_decimal :: "int \<Rightarrow> string" where
  "signed_decimal i = (if i < 0 then CHR ''-'' # decimal (nat (- i)) else decimal (nat i))"

text \<open>\<^verbatim>\<open>fmt.Sprintf("%v", x)\<close> on a scalar.\<close>

fun fmt_v :: "scalar \<Rightarrow> string" where
  "fmt_v (GoString s) = s"
| "fmt_v (GoInt w) = signed_decimal (sint w)"
| "fmt_v (GoInt64 w) = signed_decimal (sint w)"
| "fmt_v (GoInt32 w) = signed_decimal (sint w)"
| "fmt_v (GoInt16 w) = signed_decimal (sint w)"
| "fmt_v (GoInt8 w) = signed_decimal (sint w)"
| "fmt_v (GoUint w) = decimal (unat w)"
| "fmt_v (GoUint8 w) = decimal (unat w)"
| "fmt_v (GoUint16 w) = decimal (unat w)"
| "fmt_v (GoUint32 w) = decimal (unat w)"
| "fmt_v (GoUint64 w) = decimal (unat w)"
| "fmt_v (GoFloat64 f) = Rep_float_text f"
| "fmt_v (GoFloat32 f) = Rep_float_text f"
| "fmt_v (GoBool b) = (if b then ''true'' else ''false'')"
| "fmt_v GoNil = ''<nil>''"
| "fmt_v (GoOther s) = s"

text \<open>
  \<^verbatim>\<open>html.EscapeString\<close> replaces the five characters \<^verbatim>\<open>& ' < > "\<close> by character
  references and copies every other byte.
\<close>

definition escape_char :: "char \<Rightarrow> string" where
  "escape_char c =
    (if c = CHR ''&'' then ''&amp;''
     else if c = CHR 0x27 then ''&#39;''
     else if c = CHR ''<'' then ''&lt;''
     else if c = CHR ''>'' then ''&gt;''
     else if c = CHR 0x22 then ''&#34;''
     else [c])"

definition EscapeString :: "string \<Rightarrow> string" where
  "EscapeString s = concat (map escape_char s)"

section \<open>The encoder\<close>

text \<open>
  \<open>renderEditableForm\<close>, case by case as in the source. The two \<^verbatim>\<open>range\<close> loops are
  folds that append to \<open>formBody\<close>; the slice loop runs over the elements paired with
  their indices. The source's parameter \<^verbatim>\<open>prefix\<close> is \<open>pfx\<close> here.
\<close>

definition map_prefix :: "string \<Rightarrow> scalar \<Rightarrow> string" where
  "map_prefix pfx key = pfx @ ''.'' @ fmt_v key"

definition slice_prefix :: "string \<Rightarrow> nat \<Rightarrow> string" where
  "slice_prefix pfx i = pfx @ ''['' @ decimal i @ '']''"

text \<open>
  The \<^verbatim>\<open>Sprintf\<close> calls of the integer case, the float case and the default case.
\<close>

definition number_input :: "string \<Rightarrow> scalar \<Rightarrow> string" where
  "number_input pfx v =
     ''<input type=\"number\" name=\"'' @ EscapeString pfx @ ''\" value=\"'' @ fmt_v v @ ''\">''"

definition float_input :: "string \<Rightarrow> scalar \<Rightarrow> string" where
  "float_input pfx v =
     ''<input type=\"number\" step=\"any\" name=\"'' @ EscapeString pfx @ ''\" value=\"''
       @ fmt_v v @ ''\">''"

definition opaque :: "scalar \<Rightarrow> string" where
  "opaque v = ''<code>'' @ EscapeString (fmt_v v) @ ''</code>''"

text \<open>Every element of a map or a slice is smaller than the map or the slice.\<close>

lemma size_map_value: "(key, value) \<in> set v \<Longrightarrow> size value \<le> size_list (size_prod (\<lambda>_. 0) size) v"
  by (induction v) auto

lemma size_slice_value: "(i, value) \<in> set (enumerate 0 v) \<Longrightarrow> size value \<le> size_list size v"
proof -
  assume "(i, value) \<in> set (enumerate 0 v)"
  then have "value \<in> set v"
    by (auto simp: in_set_enumerate_eq)
  then show ?thesis
    by (induction v) auto
qed

function renderEditableForm :: "dyn \<Rightarrow> string \<Rightarrow> string" where
  "renderEditableForm (GoMap v) pfx =
     foldl (\<lambda>formBody (key, value).
              formBody @ ''<li><label>'' @ EscapeString (fmt_v key) @ '':</label> ''
                @ renderEditableForm value (map_prefix pfx key) @ ''</li>'')
           ''<ul>'' v
     @ ''</ul>''"
| "renderEditableForm (GoSlice v) pfx =
     foldl (\<lambda>formBody (i, value).
              formBody @ ''<li>'' @ renderEditableForm value (slice_prefix pfx i) @ ''</li>'')
           ''<ol>'' (enumerate 0 v)
     @ ''</ol>''"
| "renderEditableForm (GoScalar (GoString v)) pfx =
     ''<input type=\"text\" name=\"'' @ EscapeString pfx @ ''\" value=\"'' @ EscapeString v
       @ ''\" size=\"100\">''"
| "renderEditableForm (GoScalar (GoInt v)) pfx = number_input pfx (GoInt v)"
| "renderEditableForm (GoScalar (GoInt64 v)) pfx = number_input pfx (GoInt64 v)"
| "renderEditableForm (GoScalar (GoInt32 v)) pfx = number_input pfx (GoInt32 v)"
| "renderEditableForm (GoScalar (GoInt16 v)) pfx = number_input pfx (GoInt16 v)"
| "renderEditableForm (GoScalar (GoInt8 v)) pfx = number_input pfx (GoInt8 v)"
| "renderEditableForm (GoScalar (GoFloat64 v)) pfx = float_input pfx (GoFloat64 v)"
| "renderEditableForm (GoScalar (GoFloat32 v)) pfx = float_input pfx (GoFloat32 v)"
| "renderEditableForm (GoScalar (GoBool v)) pfx =
     (let checked = (if v then ''checked'' else [])
      in ''<input type=\"hidden\" name=\"'' @ EscapeString pfx
           @ ''\" value=\"false\"><input type=\"checkbox\" name=\"'' @ EscapeString pfx
           @ ''\" value=\"true\" '' @ checked @ ''>'')"
| "renderEditableForm (GoScalar GoNil) pfx = ''<em>nil</em>''"
| "renderEditableForm (GoScalar (GoUint v)) pfx = opaque (GoUint v)"
| "renderEditableForm (GoScalar (GoUint8 v)) pfx = opaque (GoUint8 v)"
| "renderEditableForm (GoScalar (GoUint16 v)) pfx = opaque (GoUint16 v)"
| "renderEditableForm (GoScalar (GoUint32 v)) pfx = opaque (GoUint32 v)"
| "renderEditableForm (GoScalar (GoUint64 v)) pfx = opaque (GoUint64 v)"
| "renderEditableForm (GoScalar (GoOther v)) pfx = opaque (GoOther v)"
  by pat_completeness auto
termination
  by (relation "measure (\<lambda>(v, pfx). size v)")
     (auto dest: size_map_value size_slice_value simp: less_Suc_eq_le)

section \<open>Field paths\<close>

text \<open>
  A position in a value tree is the list of descents that lead to it from the root: through
  a map by a key, through a slice by an index. \<open>pathOf\<close> is the field path the encoder
  has built when it arrives there: it extends the prefix with \<open>map_prefix\<close> and
  \<open>slice_prefix\<close> exactly as the two loops of \<open>renderEditableForm\<close> do.
\<close>

datatype step = Key scalar | Index nat

fun child :: "dyn \<Rightarrow> step \<Rightarrow> dyn option" where
  "child (GoMap v) (Key k) = map_of v k"
| "child (GoSlice v) (Index i) = (if i < length v then Some (v ! i) else None)"
| "child _ _ = None"

fun node_at :: "dyn \<Rightarrow> step list \<Rightarrow> dyn option" where
  "node_at t [] = Some t"
| "node_at t (s # p) = (case child t s of None \<Rightarrow> None | Some c \<Rightarrow> node_at c p)"

fun is_leaf :: "dyn \<Rightarrow> step list \<Rightarrow> bool" where
  "is_leaf t p = (case node_at t p of Some (GoScalar _) \<Rightarrow> True | _ \<Rightarrow> False)"

fun step_prefix :: "string \<Rightarrow> step \<Rightarrow> string" where
  "step_prefix pfx (Key k) = map_prefix pfx k"
| "step_prefix pfx (Index i) = slice_prefix pfx i"

definition pathOf :: "string \<Rightarrow> step list \<Rightarrow> string" where
  "pathOf pfx p = foldl step_prefix pfx p"

text \<open>A Go map holds each key once.\<close>

fun unique_keys :: "dyn \<Rightarrow> bool" where
  "unique_keys (GoMap v) = (distinct (map fst v) \<and> list_all (\<lambda>(k, c). unique_keys c) v)"
| "unique_keys (GoSlice v) = list_all unique_keys v"
| "unique_keys (GoScalar _) = True"

text \<open>
  The trees on which the path notation is unambiguous: in every map the keys print as
  different texts, and no key's text holds a dot or an opening bracket.
\<close>

definition plain_key :: "scalar \<Rightarrow> bool" where
  "plain_key k = (CHR ''.'' \<notin> set (fmt_v k) \<and> CHR ''['' \<notin> set (fmt_v k))"

fun plain_keys :: "dyn \<Rightarrow> bool" where
  "plain_keys (GoMap v) =
     (distinct (map (\<lambda>(k, c). fmt_v k) v) \<and> list_all (\<lambda>(k, c). plain_key k \<and> plain_keys c) v)"
| "plain_keys (GoSlice v) = list_all plain_keys v"
| "plain_keys (GoScalar _) = True"

section \<open>The HTTP handlers\<close>

text \<open>
  A response is the status, the \<^verbatim>\<open>Content-Type\<close> the handler sets (if it sets one) and
  the body. A handler also leaves a trace, in the order of the events: the calls it makes on
  the uploaded file and the archive, what it prints on standard output, and \<open>Reply\<close>
  where it writes the response.
\<close>

record response =
  status :: nat
  content_type :: "string option"
  body :: string

datatype event =
    FormFile | ReadAll | CloseFile | NewZipReader | OpenEntry | CloseEntry | Unpickle
  | Print string | Reply

type_synonym bytes = string

text \<open>
  The uploaded file as \<^verbatim>\<open>r.FormFile("savefile")\<close> returns it: \<open>None\<close> is the error
  return, also for \<^verbatim>\<open>io.ReadAll\<close>, \<^verbatim>\<open>File.Open\<close> and \<^verbatim>\<open>r.ParseForm\<close> below.
\<close>

record multipart_file =
  contents :: "bytes option"

record zip_file =
  Name :: string
  Open :: "bytes option"

text \<open>
  A request: its method, the path of its URL, the file of the multipart field
  \<^verbatim>\<open>savefile\<close> if there is one, the media type of its body, the form fields its body
  submits (in the order \<^verbatim>\<open>range\<close> visits them once they are a Go map), and whether what
  \<^verbatim>\<open>ParseForm\<close> reads of it parses.
\<close>

datatype media = FormUrlEncoded | MultipartFormData | OtherMedia

record request =
  Method :: string
  URL_Path :: string
  savefile :: "multipart_file option"
  Content_Type :: media
  form_fields :: "(string \<times> string list) list"
  parses :: bool

text \<open>
  \<^verbatim>\<open>r.ParseForm()\<close> on a \<^verbatim>\<open>POST\<close> request, with the \<^verbatim>\<open>r.PostForm\<close> it leaves. It
  reads the query of the URL and the \<^verbatim>\<open>Content-Type\<close> header, and it reads and parses the
  body only when that is \<^verbatim>\<open>application/x-www-form-urlencoded\<close>; an error in any of these
  is its error. A \<^verbatim>\<open>multipart/form-data\<close> body is left to \<^verbatim>\<open>ParseMultipartForm\<close>, and a
  body of another type is no form: \<^verbatim>\<open>PostForm\<close> is then the empty map.
\<close>

definition ParseForm :: "request \<Rightarrow> (string \<times> string list) list option" where
  "ParseForm r =
     (if \<not> parses r then None
      else if Content_Type r = FormUrlEncoded then Some (form_fields r)
      else Some [])"

definition StatusBadRequest :: nat where "StatusBadRequest = 400"
definition StatusMethodNotAllowed :: nat where "StatusMethodNotAllowed = 405"
definition StatusInternalServerError :: nat where "StatusInternalServerError = 500"
definition StatusNotFound :: nat where "StatusNotFound = 404"
definition StatusOK :: nat where "StatusOK = 200"

definition newline :: char where "newline = CHR 0x0A"
definition tab :: char where "tab = CHR 0x09"

text \<open>\<^verbatim>\<open>http.Error\<close>: a plain-text reply of the message and a newline.\<close>

definition http_Error :: "string \<Rightarrow> nat \<Rightarrow> response" where
  "http_Error msg code =
     \<lparr>status = code, content_type = Some ''text/plain; charset=utf-8'', body = msg @ [newline]\<rparr>"

definition html_reply :: "string \<Rightarrow> response" where
  "html_reply page = \<lparr>status = StatusOK, content_type = Some ''text/html; charset=utf-8'', body = page\<rparr>"

definition line :: "nat \<Rightarrow> string \<Rightarrow> string" where
  "line n s = replicate n tab @ s @ [newline]"

definition edit_page :: "string \<Rightarrow> string" where
  "edit_page form =
     [newline]
     @ line 2 ''<!DOCTYPE html>''
     @ line 2 ''<html>''
     @ line 2 ''<head>''
     @ line 3 (''<title>Ren'' @ [CHR 0x27] @ ''Py Save Editor</title>'')
     @ line 2 ''</head>''
     @ line 2 ''<body>''
     @ line 3 ''<h2>Edit Save File Data</h2>''
     @ line 3 ''<form action=\"/save\" method=\"post\">''
     @ line 4 form
     @ line 4 ''<br>''
     @ line 4 ''<input type=\"submit\" value=\"Save Changes\">''
     @ line 3 ''</form>''
     @ line 2 ''</body>''
     @ line 2 ''</html>''
     @ [tab]"

text \<open>
  \<open>uploadHandler\<close>. The archive reader and the unpickler are library code and enter as
  the parameters \<open>zipNewReader\<close> and \<open>Load\<close>. The deferred \<^verbatim>\<open>Close\<close> calls run at
  every return after their \<^verbatim>\<open>defer\<close>, last deferred first.
\<close>

definition uploadHandler ::
  "(bytes \<Rightarrow> zip_file list option) \<Rightarrow> (bytes \<Rightarrow> dyn option) \<Rightarrow> request \<Rightarrow> response \<times> event list"
where
  "uploadHandler zipNewReader Load r =
    (if Method r \<noteq> ''POST'' then
       (http_Error ''Only POST method is allowed'' StatusMethodNotAllowed, [Reply])
     else case savefile r of
       None \<Rightarrow> (http_Error ''Error retrieving the file'' StatusBadRequest, [FormFile, Reply])
     | Some file \<Rightarrow>
        (case contents file of
           None \<Rightarrow> (http_Error ''Error reading uploaded file'' StatusInternalServerError,
                     [FormFile, ReadAll, Reply, CloseFile])
         | Some fileBytes \<Rightarrow>
            (case zipNewReader fileBytes of
               None \<Rightarrow> (http_Error ''Error reading zip file'' StatusInternalServerError,
                         [FormFile, ReadAll, NewZipReader, Reply, CloseFile])
             | Some files \<Rightarrow>
                (case find (\<lambda>f. Name f = ''log'') files of
                   None \<Rightarrow> (http_Error ''log file not found in save archive'' StatusBadRequest,
                             [FormFile, ReadAll, NewZipReader, Reply, CloseFile])
                 | Some logFile \<Rightarrow>
                    (case Open logFile of
                       None \<Rightarrow> (http_Error ''Error opening log file'' StatusInternalServerError,
                                 [FormFile, ReadAll, NewZipReader, OpenEntry, Reply, CloseFile])
                     | Some logFileReader \<Rightarrow>
                        (case Load logFileReader of
                           None \<Rightarrow> (http_Error ''Error unpickling log file'' StatusInternalServerError,
                                     [FormFile, ReadAll, NewZipReader, OpenEntry, Unpickle,
                                      Reply, CloseEntry, CloseFile])
                         | Some data \<Rightarrow>
                            (html_reply (edit_page (renderEditableForm data ''root'')),
                             [FormFile, ReadAll, NewZipReader, OpenEntry, Unpickle,
                              Reply, CloseEntry, CloseFile])))))))"

text \<open>
  \<open>saveHandler\<close>. \<^verbatim>\<open>%v\<close> prints a \<^verbatim>\<open>[]string\<close> as its elements between brackets,
  separated by spaces; \<open>log_line\<close> is the \<^verbatim>\<open>Printf\<close> of the second loop.
  \<^verbatim>\<open>sort.Strings\<close> sorts in increasing byte-wise order, which is the lexicographic order
  of \<open>string\<close>. A reply that sets no status is a 200.
\<close>

fun join_space :: "string list \<Rightarrow> string" where
  "join_space [] = []"
| "join_space [x] = x"
| "join_space (x # y # ys) = x @ '' '' @ join_space (y # ys)"

definition fmt_strings :: "string list \<Rightarrow> string" where
  "fmt_strings vs = ''['' @ join_space vs @ '']''"

definition form_values :: "(string \<times> string list) list \<Rightarrow> string \<Rightarrow> string list" where
  "form_values form key = (case map_of form key of None \<Rightarrow> [] | Some vs \<Rightarrow> vs)"

definition log_line :: "(string \<times> string list) list \<Rightarrow> string \<Rightarrow> event" where
  "log_line form key =
     Print (''  '' @ key @ '': '' @ fmt_strings (form_values form key) @ [newline])"

definition saveHandler :: "request \<Rightarrow> response \<times> event list" where
  "saveHandler r =
    (if Method r \<noteq> ''POST'' then
       (http_Error ''Only POST method is allowed'' StatusMethodNotAllowed, [Reply])
     else case ParseForm r of
       None \<Rightarrow> (http_Error ''Error parsing form'' StatusInternalServerError, [Reply])
     | Some form \<Rightarrow>
        (let keys = foldl (\<lambda>keys (key, values). keys @ [key]) [] form;
             keys = sort keys
         in (\<lparr>status = StatusOK, content_type = None,
              body = ''Changes received. Rebuilding the save file is the next step.''\<rparr>,
             Print (''Received form data:'' @ [newline]) # map (log_line form) keys @ [Reply])))"

text \<open>The handler that \<open>main\<close> registers for \<^verbatim>\<open>/\<close>.\<close>

definition upload_page :: string where
  "upload_page =
     [newline]
     @ line 3 ''<!DOCTYPE html>''
     @ line 3 ''<html>''
     @ line 3 ''<head>''
     @ line 4 (''<title>Ren'' @ [CHR 0x27] @ ''Py Save Editor</title>'')
     @ line 3 ''</head>''
     @ line 3 ''<body>''
     @ line 4 ''<h2>Upload Save File</h2>''
     @ line 4 ''<form action=\"/upload\" method=\"post\" enctype=\"multipart/form-data\">''
     @ line 5 ''<input type=\"file\" name=\"savefile\">''
     @ line 5 ''<input type=\"submit\" value=\"Upload\">''
     @ line 4 ''</form>''
     @ line 3 ''</body>''
     @ line 3 ''</html>''
     @ [tab, tab]"

definition rootHandler :: "request \<Rightarrow> response \<times> event list" where
  "rootHandler r = (html_reply upload_page, [Reply])"

text \<open>
  The routes of \<open>main\<close>, on the default \<^verbatim>\<open>ServeMux\<close> of \<^verbatim>\<open>net/http\<close>, which
  \<^verbatim>\<open>ListenAndServe(":8080", nil)\<close> serves. No pattern names a host. A pattern that ends in
  a slash matches every path it is a prefix of, any other pattern matches the equal path
  only, and the longest matching pattern wins (an exact match is the longest there is).
\<close>

datatype handler = UploadHandler | SaveHandler | RootHandler

definition routes :: "(string \<times> handler) list" where
  "routes = [(''/upload'', UploadHandler), (''/save'', SaveHandler), (''/'', RootHandler)]"

definition pathMatch :: "string \<Rightarrow> string \<Rightarrow> bool" where
  "pathMatch pattern path =
     (if pattern = [] then False
      else if last pattern \<noteq> CHR ''/'' then pattern = path
      else prefix pattern path)"

fun mux_handler :: "(string \<times> handler) list \<Rightarrow> string \<Rightarrow> (string \<times> handler) option" where
  "mux_handler [] path = None"
| "mux_handler ((pattern, h) # rs) path =
     (case mux_handler rs path of
        None \<Rightarrow> (if pathMatch pattern path then Some (pattern, h) else None)
      | Some (pattern', h') \<Rightarrow>
          (if pathMatch pattern path \<and> length pattern' < length pattern then Some (pattern, h)
           else Some (pattern', h')))"

definition rooted :: "string \<Rightarrow> bool" where
  "rooted path = prefix ''/'' path"

text \<open>
  Before it looks for a pattern, the mux brings the path into canonical form.
  \<^verbatim>\<open>path.Clean\<close> on a rooted path: the path is cut at its slashes, empty elements and
  \<^verbatim>\<open>.\<close> elements are dropped, a \<^verbatim>\<open>..\<close> element removes the element before it (at the
  root it is dropped), and what is left is joined again behind a slash. \<open>cleanPath\<close> of
  \<^verbatim>\<open>net/http\<close> roots the path, cleans it and puts back a trailing slash.
\<close>

fun segments :: "string \<Rightarrow> string list" where
  "segments [] = [[]]"
| "segments (c # cs) =
     (if c = CHR ''/'' then [] # segments cs
      else (case segments cs of [] \<Rightarrow> [[c]] | seg # rest \<Rightarrow> (c # seg) # rest))"

fun clean_segments :: "string list \<Rightarrow> string list \<Rightarrow> string list" where
  "clean_segments kept [] = rev kept"
| "clean_segments kept (seg # rest) =
     (if seg = [] \<or> seg = ''.'' then clean_segments kept rest
      else if seg = ''..'' then clean_segments (tl kept) rest
      else clean_segments (seg # kept) rest)"

fun join_slash :: "string list \<Rightarrow> string" where
  "join_slash [] = []"
| "join_slash [x] = x"
| "join_slash (x # y # ys) = x @ ''/'' @ join_slash (y # ys)"

definition path_Clean :: "string \<Rightarrow> string" where
  "path_Clean p = ''/'' @ join_slash (clean_segments [] (segments p))"

definition cleanPath :: "string \<Rightarrow> string" where
  "cleanPath p =
     (if p = [] then ''/''
      else let p = (if hd p \<noteq> CHR ''/'' then CHR ''/'' # p else p);
               np = path_Clean p
           in if last p = CHR ''/'' \<and> np \<noteq> ''/'' then np @ ''/'' else np)"

text \<open>
  \<^verbatim>\<open>shouldRedirectRLocked\<close>: a path with no pattern of its own is redirected to the path
  with a slash added when that one has a pattern.
\<close>

definition shouldRedirect :: "(string \<times> handler) list \<Rightarrow> string \<Rightarrow> bool" where
  "shouldRedirect rs path =
     (if path \<in> set (map fst rs) then False
      else if path = [] then False
      else if path @ ''/'' \<in> set (map fst rs) then last path \<noteq> CHR ''/''
      else False)"

definition StatusMovedPermanently :: nat where "StatusMovedPermanently = 301"

text \<open>
  \<^verbatim>\<open>http.Redirect\<close> with status 301, as the mux's redirect handler calls it: the
  \<^verbatim>\<open>Location\<close> header (not a field of \<open>response\<close>) names the URL, and a \<^verbatim>\<open>GET\<close> gets a
  short link as the body.
\<close>

definition redirect_reply :: "string \<Rightarrow> string \<Rightarrow> response" where
  "redirect_reply method url =
     \<lparr>status = StatusMovedPermanently,
      content_type =
        (if method = ''GET'' \<or> method = ''HEAD'' then Some ''text/html; charset=utf-8'' else None),
      body =
        (if method = ''GET''
         then ''<a href=\"'' @ EscapeString url @ ''\">Moved Permanently</a>.'' @ [newline, newline]
         else [])\<rparr>"

definition dispatch ::
  "(bytes \<Rightarrow> zip_file list option) \<Rightarrow> (bytes \<Rightarrow> dyn option) \<Rightarrow> request \<Rightarrow> response \<times> event list"
where
  "dispatch zipNewReader Load r =
     (case mux_handler routes (URL_Path r) of
        None \<Rightarrow> (http_Error ''404 page not found'' StatusNotFound, [Reply])
      | Some (pattern, UploadHandler) \<Rightarrow> uploadHandler zipNewReader Load r
      | Some (pattern, SaveHandler) \<Rightarrow> saveHandler r
      | Some (pattern, RootHandler) \<Rightarrow> rootHandler r)"

text \<open>
  \<^verbatim>\<open>ServeMux.ServeHTTP\<close> and \<^verbatim>\<open>ServeMux.Handler\<close>. The request \<^verbatim>\<open>*\<close> is refused. The
  path of a \<^verbatim>\<open>CONNECT\<close> request is taken as it is; any other path is cleaned, and a
  request whose path is not the cleaned one is answered with a redirect to the cleaned path:
  no handler of \<open>main\<close> runs. \<open>urlString\<close> is \<^verbatim>\<open>url.URL.String\<close> for a path together with
  the query of the request, library code that enters as a parameter.
\<close>

definition serve ::
  "(request \<Rightarrow> string \<Rightarrow> string) \<Rightarrow> (bytes \<Rightarrow> zip_file list option) \<Rightarrow> (bytes \<Rightarrow> dyn option)
     \<Rightarrow> request \<Rightarrow> response \<times> event list"
where
  "serve urlString zipNewReader Load r =
     (if URL_Path r = ''*'' then
        (\<lparr>status = StatusBadRequest, content_type = None, body = []\<rparr>, [Reply])
      else
        let path = (if Method r = ''CONNECT'' then URL_Path r else cleanPath (URL_Path r))
        in if shouldRedirect routes path then
             (redirect_reply (Method r) (urlString r (path @ ''/'')), [Reply])
           else if path \<noteq> URL_Path r then
             (redirect_reply (Method r) (urlString r path), [Reply])
           else dispatch zipNewReader Load r)"

section \<open>Example inputs\<close>

text \<open>
  Three maps a Go program can build: one with the integer key 1 and the string key \<open>1\<close>,
  one with a key that holds a dot, one with a key that holds a bracketed index. Then the
  tree \<^verbatim>\<open>{"gold": 100, "flags": [true, false]}\<close>, and some requests.
\<close>

definition collide1 :: dyn where
  "collide1 =
     GoMap [(GoInt 1, GoScalar (GoString ''a'')), (GoString ''1'', GoScalar (GoString ''b''))]"

definition collide2 :: dyn where
  "collide2 =
     GoMap [(GoString ''a'', GoMap [(GoString ''b'', GoScalar (GoInt 1))]),
            (GoString ''a.b'', GoScalar (GoInt 2))]"

definition collide3 :: dyn where
  "collide3 =
     GoMap [(GoString ''a'', GoSlice [GoScalar (GoInt 1)]),
            (GoString ''a[0]'', GoScalar (GoInt 2))]"

definition sample :: dyn where
  "sample =
     GoMap [(GoString ''gold'', GoScalar (GoInt 100)),
            (GoString ''flags'', GoSlice [GoScalar (GoBool True), GoScalar (GoBool False)])]"

definition get_upload :: request where
  "get_upload =
     \<lparr>Method = ''GET'', URL_Path = ''/upload'',
      savefile = Some \<lparr>contents = Some ''PK''\<rparr>, Content_Type = MultipartFormData,
      form_fields = [], parses = True\<rparr>"

definition post_save :: request where
  "post_save =
     \<lparr>Method = ''POST'', URL_Path = ''/save'', savefile = None, Content_Type = FormUrlEncoded,
      form_fields = [(''root.gold'', [''150'']), (''root.flags[0]'', [''false'', ''true''])],
      parses = True\<rparr>"

definition multipart_save :: request where
  "multipart_save = post_save\<lparr>Content_Type := MultipartFormData\<rparr>"

definition post_root :: request where
  "post_root =
     \<lparr>Method = ''POST'', URL_Path = ''/'', savefile = None, Content_Type = OtherMedia,
      form_fields = [], parses = True\<rparr>"

definition delete_other :: request where
  "delete_other = post_root\<lparr>Method := ''DELETE'', URL_Path := ''/no/such/page''\<rparr>"

definition get_double_slash :: request where
  "get_double_slash = post_root\<lparr>Method := ''GET'', URL_Path := ''//foo''\<rparr>"

definition post_dot_dot :: request where
  "post_dot_dot = post_root\<lparr>URL_Path := ''/a/../upload''\<rparr>"

section \<open>Notions the properties are stated with\<close>

text \<open>
  The text a descent adds to a path, and the text a whole position adds to the prefix.
\<close>

fun step_text :: "step \<Rightarrow> string" where
  "step_text (Key k) = ''.'' @ fmt_v k"
| "step_text (Index i) = ''['' @ decimal i @ '']''"

definition path_text :: "step list \<Rightarrow> string" where
  "path_text p = concat (map step_text p)"

definition separator :: "char \<Rightarrow> bool" where
  "separator c = (c = CHR ''.'' \<or> c = CHR ''['')"

text \<open>Reading a decimal numeral back.\<close>

definition digit_val :: "char \<Rightarrow> nat" where
  "digit_val c = of_char c - 48"

definition undecimal :: "string \<Rightarrow> nat" where
  "undecimal s = foldl (\<lambda>a c. 10 * a + digit_val c) 0 s"

text \<open>
  The tags the encoder writes itself, each without its opening angle bracket. A string has
  \<open>tags_only\<close> when every \<^verbatim>\<open><\<close> in it opens one of them.
\<close>

definition encoder_tags :: "string list" where
  "encoder_tags =
     [''ul>'', ''/ul>'', ''li>'', ''/li>'', ''label>'', ''/label>'', ''ol>'', ''/ol>'',
      ''input '', ''em>'', ''/em>'', ''code>'', ''/code>'']"

fun tags_only :: "string \<Rightarrow> bool" where
  "tags_only [] = True"
| "tags_only (c # cs) =
     ((c = CHR ''<'' \<longrightarrow> list_ex (\<lambda>t. prefix t cs) encoder_tags) \<and> tags_only cs)"

text \<open>
  The characters that delimit tags and attribute values, and the subsequence of them in a
  string. These are the characters \<open>EscapeString\<close> replaces, the ampersand apart.
\<close>

definition markup_char :: "char \<Rightarrow> bool" where
  "markup_char c = (c = CHR ''<'' \<or> c = CHR ''>'' \<or> c = CHR 0x22 \<or> c = CHR 0x27)"

definition markup_chars :: "string \<Rightarrow> string" where
  "markup_chars s = filter markup_char s"

text \<open>
  The five character references \<open>EscapeString\<close> writes, each without its ampersand. A
  string has \<open>refs_only\<close> when every ampersand in it opens one of them. \<open>unescape\<close> reads
  the five references back, as a browser does, and copies everything else.
\<close>

definition char_refs :: "string list" where
  "char_refs = [''amp;'', ''#39;'', ''lt;'', ''gt;'', ''#34;'']"

fun refs_only :: "string \<Rightarrow> bool" where
  "refs_only [] = True"
| "refs_only (c # cs) =
     ((c = CHR ''&'' \<longrightarrow> list_ex (\<lambda>t. prefix t cs) char_refs) \<and> refs_only cs)"

fun unescape :: "string \<Rightarrow> string" where
  "unescape [] = []"
| "unescape (c # cs) =
     (if c = CHR ''&'' \<and> prefix ''amp;'' cs then CHR ''&'' # unescape (drop 4 cs)
      else if c = CHR ''&'' \<and> prefix ''#39;'' cs then CHR 0x27 # unescape (drop 4 cs)
      else if c = CHR ''&'' \<and> prefix ''lt;'' cs then CHR ''<'' # unescape (drop 3 cs)
      else if c = CHR ''&'' \<and> prefix ''gt;'' cs then CHR ''>'' # unescape (drop 3 cs)
      else if c = CHR ''&'' \<and> prefix ''#34;'' cs then CHR 0x22 # unescape (drop 4 cs)
      else c # unescape cs)"

text \<open>
  \<open>retext f\<close> rewrites every text of a tree with \<open>f\<close>: the string values, the string
  keys and the display strings of the values of other types.
\<close>

fun retext_scalar :: "(string \<Rightarrow> string) \<Rightarrow> scalar \<Rightarrow> scalar" where
  "retext_scalar f (GoString s) = GoString (f s)"
| "retext_scalar f (GoOther s) = GoOther (f s)"
| "retext_scalar f v = v"

fun retext :: "(string \<Rightarrow> string) \<Rightarrow> dyn \<Rightarrow> dyn" where
  "retext f (GoMap v) = GoMap (map (\<lambda>(key, value). (retext_scalar f key, retext f value)) v)"
| "retext f (GoSlice v) = GoSlice (map (retext f) v)"
| "retext f (GoScalar v) = GoScalar (retext_scalar f v)"

text \<open>
  The dynamic types that have a case of their own in the type switch: \<^verbatim>\<open>string\<close>, the
  five signed integer types, the two float types, \<^verbatim>\<open>bool\<close> and \<^verbatim>\<open>nil\<close>.
\<close>

fun own_case :: "scalar \<Rightarrow> bool" where
  "own_case (GoString _) = True"
| "own_case (GoInt _) = True"
| "own_case (GoInt64 _) = True"
| "own_case (GoInt32 _) = True"
| "own_case (GoInt16 _) = True"
| "own_case (GoInt8 _) = True"
| "own_case (GoFloat64 _) = True"
| "own_case (GoFloat32 _) = True"
| "own_case (GoBool _) = True"
| "own_case GoNil = True"
| "own_case _ = False"

section \<open>The loops in closed form\<close>

lemma foldl_append_concat:
  "foldl (\<lambda>acc x. acc @ f x) a xs = a @ concat (map f xs)"
  by (induction xs arbitrary: a) simp_all

lemma render_GoMap:
  "renderEditableForm (GoMap v) pfx =
     ''<ul>''
     @ concat (map (\<lambda>(key, value).
                      ''<li><label>'' @ EscapeString (fmt_v key) @ '':</label> ''
                        @ renderEditableForm value (map_prefix pfx key) @ ''</li>'') v)
     @ ''</ul>''"
  using foldl_append_concat
    [of "\<lambda>(key, value). ''<li><label>'' @ EscapeString (fmt_v key) @ '':</label> ''
           @ renderEditableForm value (map_prefix pfx key) @ ''</li>''" "''<ul>''" v]
  by (simp add: case_prod_unfold)

lemma render_GoSlice:
  "renderEditableForm (GoSlice v) pfx =
     ''<ol>''
     @ concat (map (\<lambda>(i, value).
                      ''<li>'' @ renderEditableForm value (slice_prefix pfx i) @ ''</li>'')
                 (enumerate 0 v))
     @ ''</ol>''"
  using foldl_append_concat
    [of "\<lambda>(i, value). ''<li>'' @ renderEditableForm value (slice_prefix pfx i) @ ''</li>''"
        "''<ol>''" "enumerate 0 v"]
  by (simp add: case_prod_unfold)

lemma map_enumerate_nth:
  "map (\<lambda>(i, x). f i x) (enumerate 0 v) = map (\<lambda>i. f i (v ! i)) [0..<length v]"
  by (rule nth_equalityI) (simp_all add: nth_enumerate_eq)

section \<open>Decimal numerals\<close>

lemma below_ten: "n < 10 \<Longrightarrow> n \<in> {0, 1, 2, 3, 4, 5, 6, 7, 8, 9::nat}"
  by auto

lemma digit_in: "n < 10 \<Longrightarrow> digit n \<in> set ''0123456789''"
  using below_ten [of n] by (auto simp: digit_def)

lemma decimal_digits: "set (decimal n) \<subseteq> set ''0123456789''"
proof (induction n rule: decimal.induct)
  case (1 n)
  show ?case
  proof (cases "n < 10")
    case True
    then show ?thesis using digit_in [of n] by (subst decimal.simps) simp
  next
    case False
    have "n mod 10 < 10" by simp
    then have "digit (n mod 10) \<in> set ''0123456789''" by (rule digit_in)
    with False 1 show ?thesis by (subst decimal.simps) simp
  qed
qed

lemma digit_val_digit: "n < 10 \<Longrightarrow> digit_val (digit n) = n"
  using below_ten [of n] by (auto simp: digit_val_def digit_def)

lemma undecimal_decimal: "undecimal (decimal n) = n"
proof (induction n rule: decimal.induct)
  case (1 n)
  show ?case
  proof (cases "n < 10")
    case True
    then show ?thesis by (subst decimal.simps) (simp add: undecimal_def digit_val_digit)
  next
    case False
    then have "undecimal (decimal n) =
        10 * undecimal (decimal (n div 10)) + digit_val (digit (n mod 10))"
      by (subst decimal.simps) (simp add: undecimal_def)
    with False 1 show ?thesis by (simp add: digit_val_digit)
  qed
qed

lemma decimal_inj: "decimal n = decimal m \<Longrightarrow> n = m"
  by (metis undecimal_decimal)

section \<open>Leaves and sequences\<close>

text \<open>
  C5. A slice is rendered as an ordered list whose items are the elements in index order
  0, 1, 2, ..., the element at index \<open>i\<close> encoded under the path \<open>pfx[i]\<close>; and the slice
  of the integers 10, 20, 30 under the prefix \<open>root\<close> gives the fields \<open>root[0]\<close>,
  \<open>root[1]\<close>, \<open>root[2]\<close> in that order.
\<close>

theorem sequence_order_preserved:
  "renderEditableForm (GoSlice v) pfx =
     ''<ol>''
     @ concat (map (\<lambda>i. ''<li>'' @ renderEditableForm (v ! i) (pfx @ ''['' @ decimal i @ '']'')
                          @ ''</li>'') [0..<length v])
     @ ''</ol>''
   \<and> renderEditableForm
       (GoSlice [GoScalar (GoInt 10), GoScalar (GoInt 20), GoScalar (GoInt 30)]) ''root'' =
     ''<ol><li><input type=\"number\" name=\"root[0]\" value=\"10\"></li>''
     @ ''<li><input type=\"number\" name=\"root[1]\" value=\"20\"></li>''
     @ ''<li><input type=\"number\" name=\"root[2]\" value=\"30\"></li></ol>''"
proof
  show "renderEditableForm (GoSlice v) pfx =
     ''<ol>''
     @ concat (map (\<lambda>i. ''<li>'' @ renderEditableForm (v ! i) (pfx @ ''['' @ decimal i @ '']'')
                          @ ''</li>'') [0..<length v])
     @ ''</ol>''"
    unfolding render_GoSlice
    using map_enumerate_nth
      [of "\<lambda>i value. ''<li>'' @ renderEditableForm value (slice_prefix pfx i) @ ''</li>''" v]
    by (simp add: slice_prefix_def)
  show "renderEditableForm
       (GoSlice [GoScalar (GoInt 10), GoScalar (GoInt 20), GoScalar (GoInt 30)]) ''root'' =
     ''<ol><li><input type=\"number\" name=\"root[0]\" value=\"10\"></li>''
     @ ''<li><input type=\"number\" name=\"root[1]\" value=\"20\"></li>''
     @ ''<li><input type=\"number\" name=\"root[2]\" value=\"30\"></li></ol>''"
    by code_simp
qed

text \<open>
  C4. A Boolean leaf is rendered as a hidden field with the value \<open>false\<close> followed by a
  checkbox with the value \<open>true\<close>, both named by the leaf's (escaped) path, and the
  checkbox ends in the \<open>checked\<close> attribute exactly when the value is true.
\<close>

theorem boolean_leaf:
  "renderEditableForm (GoScalar (GoBool b)) pfx =
     ''<input type=\"hidden\" name=\"'' @ EscapeString pfx @ ''\" value=\"false\">''
     @ ''<input type=\"checkbox\" name=\"'' @ EscapeString pfx @ ''\" value=\"true\" ''
     @ (if b then ''checked'' else []) @ ''>''
   \<and> (suffix ''checked>'' (renderEditableForm (GoScalar (GoBool b)) pfx) \<longleftrightarrow> b)"
  by (simp add: suffix_to_prefix)

lemma EscapeString_id: "\<forall>c\<in>set s. escape_char c = [c] \<Longrightarrow> EscapeString s = s"
  by (induction s) (simp_all add: EscapeString_def)

lemma EscapeString_decimal: "EscapeString (decimal n) = decimal n"
  using decimal_digits [of n] by (intro EscapeString_id) (auto simp: escape_char_def)

lemma opaque_uint:
  "fmt_v v = decimal n \<Longrightarrow>
     opaque v = ''<code>'' @ decimal n @ ''</code>'' \<and> \<not> sublist ''<input'' (opaque v)"
proof
  assume v: "fmt_v v = decimal n"
  then show eq: "opaque v = ''<code>'' @ decimal n @ ''</code>''"
    by (simp add: opaque_def EscapeString_decimal)
  have "CHR ''i'' \<notin> set (opaque v)"
    using decimal_digits [of n] unfolding eq by auto
  then show "\<not> sublist ''<input'' (opaque v)"
    by (auto dest: set_mono_sublist)
qed

text \<open>
  C9. The values of the unsigned integer types \<^verbatim>\<open>uint\<close>, \<^verbatim>\<open>uint8\<close>, \<^verbatim>\<open>uint16\<close>,
  \<^verbatim>\<open>uint32\<close> and \<^verbatim>\<open>uint64\<close> fall to the default case: each is rendered as its decimal
  numeral between \<^verbatim>\<open><code>\<close> tags, with no input element at all, whereas the five
  signed integer types are rendered as a numeric input.
\<close>

theorem unsigned_is_opaque:
  "renderEditableForm (GoScalar (GoUint a)) pfx = ''<code>'' @ decimal (unat a) @ ''</code>''
   \<and> renderEditableForm (GoScalar (GoUint8 b)) pfx = ''<code>'' @ decimal (unat b) @ ''</code>''
   \<and> renderEditableForm (GoScalar (GoUint16 c)) pfx = ''<code>'' @ decimal (unat c) @ ''</code>''
   \<and> renderEditableForm (GoScalar (GoUint32 d)) pfx = ''<code>'' @ decimal (unat d) @ ''</code>''
   \<and> renderEditableForm (GoScalar (GoUint64 e)) pfx = ''<code>'' @ decimal (unat e) @ ''</code>''
   \<and> \<not> sublist ''<input'' (renderEditableForm (GoScalar (GoUint a)) pfx)
   \<and> \<not> sublist ''<input'' (renderEditableForm (GoScalar (GoUint8 b)) pfx)
   \<and> \<not> sublist ''<input'' (renderEditableForm (GoScalar (GoUint16 c)) pfx)
   \<and> \<not> sublist ''<input'' (renderEditableForm (GoScalar (GoUint32 d)) pfx)
   \<and> \<not> sublist ''<input'' (renderEditableForm (GoScalar (GoUint64 e)) pfx)
   \<and> prefix ''<input type=\"number\"'' (renderEditableForm (GoScalar (GoInt a)) pfx)
   \<and> prefix ''<input type=\"number\"'' (renderEditableForm (GoScalar (GoInt8 b)) pfx)
   \<and> prefix ''<input type=\"number\"'' (renderEditableForm (GoScalar (GoInt16 c)) pfx)
   \<and> prefix ''<input type=\"number\"'' (renderEditableForm (GoScalar (GoInt32 d)) pfx)
   \<and> prefix ''<input type=\"number\"'' (renderEditableForm (GoScalar (GoInt64 e)) pfx)"
proof -
  have r: "renderEditableForm (GoScalar (GoUint a)) pfx = opaque (GoUint a)"
    "renderEditableForm (GoScalar (GoUint8 b)) pfx = opaque (GoUint8 b)"
    "renderEditableForm (GoScalar (GoUint16 c)) pfx = opaque (GoUint16 c)"
    "renderEditableForm (GoScalar (GoUint32 d)) pfx = opaque (GoUint32 d)"
    "renderEditableForm (GoScalar (GoUint64 e)) pfx = opaque (GoUint64 e)"
    by simp_all
  have i: "prefix ''<input type=\"number\"'' (renderEditableForm (GoScalar (GoInt a)) pfx)"
    "prefix ''<input type=\"number\"'' (renderEditableForm (GoScalar (GoInt8 b)) pfx)"
    "prefix ''<input type=\"number\"'' (renderEditableForm (GoScalar (GoInt16 c)) pfx)"
    "prefix ''<input type=\"number\"'' (renderEditableForm (GoScalar (GoInt32 d)) pfx)"
    "prefix ''<input type=\"number\"'' (renderEditableForm (GoScalar (GoInt64 e)) pfx)"
    by (simp_all add: number_input_def)
  show ?thesis
    unfolding r
    using opaque_uint [OF fmt_v.simps(7), of a] opaque_uint [OF fmt_v.simps(8), of b]
      opaque_uint [OF fmt_v.simps(9), of c] opaque_uint [OF fmt_v.simps(10), of d]
      opaque_uint [OF fmt_v.simps(11), of e] i
    by blast
qed

section \<open>Totality\<close>

lemma render_nonempty: "renderEditableForm v pfx \<noteq> []"
  by (induction v pfx rule: renderEditableForm.induct)
     (simp_all add: render_GoMap render_GoSlice number_input_def float_input_def opaque_def
        del: renderEditableForm.simps(1,2))

text \<open>
  C6. The encoder is total: the type switch has a default case and no branch fails, and
  the recursion ends on every value tree and prefix (the domain predicate of the recursion
  holds everywhere: every chain of recursive calls is finite), with a non-empty markup
  string as the result. A scalar whose dynamic type has no case of its own is rendered by
  the default case, as its escaped \<^verbatim>\<open>%v\<close> text between \<^verbatim>\<open><code>\<close> tags.
\<close>

theorem encoder_total:
  "renderEditableForm_dom (v, pfx)
   \<and> renderEditableForm v pfx \<noteq> []
   \<and> (\<forall>s. v = GoScalar s \<and> \<not> own_case s \<longrightarrow>
         renderEditableForm v pfx = ''<code>'' @ EscapeString (fmt_v s) @ ''</code>'')"
proof (intro conjI allI impI)
  have "All renderEditableForm_dom"
    by (rule "renderEditableForm.termination" [of "measure (\<lambda>(v, pfx). size v)"])
       (auto dest: size_map_value size_slice_value simp: less_Suc_eq_le)
  then show "renderEditableForm_dom (v, pfx)" by simp
  show "renderEditableForm v pfx \<noteq> []" by (rule render_nonempty)
next
  fix s
  assume "v = GoScalar s \<and> \<not> own_case s"
  then show "renderEditableForm v pfx = ''<code>'' @ EscapeString (fmt_v s) @ ''</code>''"
    by (cases s) (simp_all add: opaque_def)
qed

theorem encoder_total_witness:
  "renderEditableForm_dom (GoScalar (GoOther ''&{<b>}''), ''root'')
   \<and> renderEditableForm (GoScalar (GoOther ''&{<b>}'')) ''root''
       = ''<code>&amp;{&lt;b&gt;}</code>''"
  using encoder_total [of "GoScalar (GoOther ''&{<b>}'')" "''root''"]
  by (simp add: EscapeString_def escape_char_def)

section \<open>Escaping\<close>

lemma tags_only_append: "tags_only a \<Longrightarrow> tags_only b \<Longrightarrow> tags_only (a @ b)"
  by (induction a) (auto simp: list_ex_iff intro: prefix_prefix)

lemma tags_only_drop: "tags_only (a @ b) \<Longrightarrow> tags_only b"
  by (induction a) auto

lemma tags_only_append_iff [simp]: "tags_only a \<Longrightarrow> tags_only (a @ b) = tags_only b"
  using tags_only_append tags_only_drop by blast

lemma tags_only_concat: "(\<And>x. x \<in> set xs \<Longrightarrow> tags_only x) \<Longrightarrow> tags_only (concat xs)"
  by (induction xs) simp_all

lemma tags_only_plain: "CHR ''<'' \<notin> set s \<Longrightarrow> tags_only s"
  by (induction s) auto

lemma markup_chars_Nil [simp]: "markup_chars [] = []"
  by (simp add: markup_chars_def)

lemma markup_chars_Cons [simp]:
  "markup_chars (c # cs) = (if markup_char c then c # markup_chars cs else markup_chars cs)"
  by (simp add: markup_chars_def)

lemma markup_chars_append [simp]: "markup_chars (a @ b) = markup_chars a @ markup_chars b"
  by (simp add: markup_chars_def)

lemma escape_char_markup: "markup_chars (escape_char c) = []"
  by (simp add: escape_char_def markup_char_def)

lemma markup_chars_EscapeString [simp]: "markup_chars (EscapeString s) = []"
  by (induction s) (simp_all add: EscapeString_def escape_char_markup)

lemma no_markup_char: "markup_chars s = [] \<Longrightarrow> CHR ''<'' \<notin> set s"
  by (auto simp: markup_chars_def filter_empty_conv markup_char_def)

lemma tags_only_EscapeString [simp]: "tags_only (EscapeString s)"
  by (simp add: tags_only_plain no_markup_char)

lemma markup_chars_digits: "set s \<subseteq> set ''0123456789'' \<Longrightarrow> markup_chars s = []"
  by (auto simp: markup_chars_def filter_empty_conv markup_char_def)

lemma markup_chars_decimal [simp]: "markup_chars (decimal n) = []"
  by (rule markup_chars_digits) (rule decimal_digits)

lemma markup_chars_signed_decimal [simp]: "markup_chars (signed_decimal i) = []"
  by (simp add: signed_decimal_def markup_char_def)

lemma markup_chars_float [simp]: "markup_chars (Rep_float_text f) = []"
  using Rep_float_text [of f]
  by (auto simp: markup_chars_def filter_empty_conv markup_char_def float_chars_def)

lemma tags_only_number_input [simp]:
  "markup_chars (fmt_v v) = [] \<Longrightarrow> tags_only (number_input pfx v)"
  by (simp add: number_input_def encoder_tags_def tags_only_plain no_markup_char)

lemma tags_only_float_input [simp]:
  "markup_chars (fmt_v v) = [] \<Longrightarrow> tags_only (float_input pfx v)"
  by (simp add: float_input_def encoder_tags_def tags_only_plain no_markup_char)

lemma tags_only_opaque [simp]: "tags_only (opaque v)"
  by (simp add: opaque_def encoder_tags_def)

lemma tags_only_render: "tags_only (renderEditableForm v pfx)"
proof (induction v pfx rule: renderEditableForm.induct)
  case (1 v pfx)
  have "tags_only (concat (map (\<lambda>(key, value).
                      ''<li><label>'' @ EscapeString (fmt_v key) @ '':</label> ''
                        @ renderEditableForm value (map_prefix pfx key) @ ''</li>'') v))"
    by (rule tags_only_concat) (auto simp: encoder_tags_def 1)
  then show ?case
    by (simp add: render_GoMap encoder_tags_def del: renderEditableForm.simps)
next
  case (2 v pfx)
  have "tags_only (concat (map (\<lambda>(i, value).
                      ''<li>'' @ renderEditableForm value (slice_prefix pfx i) @ ''</li>'')
                 (enumerate 0 v)))"
    by (rule tags_only_concat) (auto simp: encoder_tags_def 2)
  then show ?case
    by (simp add: render_GoSlice encoder_tags_def del: renderEditableForm.simps)
qed (simp_all add: encoder_tags_def)

lemma tags_only_at:
  "tags_only (ps @ CHR ''<'' # rest) \<Longrightarrow> list_ex (\<lambda>t. prefix t rest) encoder_tags"
  by (induction ps) auto

lemma tags_only_no_script: "tags_only s \<Longrightarrow> \<not> sublist ''<script>'' s"
proof
  assume t: "tags_only s" and "sublist ''<script>'' s"
  then obtain ps ss where "s = ps @ ''<script>'' @ ss"
    by (auto simp: sublist_def)
  with t have "list_ex (\<lambda>t. prefix t (''script>'' @ ss)) encoder_tags"
    using tags_only_at [of ps "''script>'' @ ss"] by simp
  then show False
    by (simp add: encoder_tags_def)
qed

lemma markup_chars_concat_cong:
  "length xs = length ys \<Longrightarrow> (\<And>i. i < length xs \<Longrightarrow> markup_chars (f (xs ! i)) = markup_chars (g (ys ! i)))
   \<Longrightarrow> markup_chars (concat (map f xs)) = markup_chars (concat (map g ys))"
proof (induction xs ys rule: list_induct2)
  case Nil
  then show ?case by simp
next
  case (Cons x xs y ys)
  have "markup_chars (f x) = markup_chars (g y)"
    using Cons.prems [of 0] by simp
  moreover have "markup_chars (concat (map f xs)) = markup_chars (concat (map g ys))"
    using Cons.prems [of "Suc i" for i] by (intro Cons.IH) simp
  ultimately show ?case by simp
qed

lemma markup_chars_render:
  "markup_chars (renderEditableForm (retext f v) pfx') = markup_chars (renderEditableForm v pfx)"
proof (induction v pfx arbitrary: pfx' rule: renderEditableForm.induct)
  case (1 v pfx)
  have "markup_chars (concat (map (\<lambda>(key, value).
                      ''<li><label>'' @ EscapeString (fmt_v key) @ '':</label> ''
                        @ renderEditableForm value (map_prefix pfx' key) @ ''</li>'')
               (map (\<lambda>(key, value). (retext_scalar f key, retext f value)) v)))
      = markup_chars (concat (map (\<lambda>(key, value).
                      ''<li><label>'' @ EscapeString (fmt_v key) @ '':</label> ''
                        @ renderEditableForm value (map_prefix pfx key) @ ''</li>'') v))"
  proof (rule markup_chars_concat_cong, goal_cases)
    case 1
    show ?case by simp
  next
    case (2 i)
    then have i: "i < length v" by simp
    obtain key "value" where kv: "v ! i = (key, value)" by (cases "v ! i")
    with i have "(key, value) \<in> set v" by (metis nth_mem)
    then have "markup_chars (renderEditableForm (retext f value) (map_prefix pfx' (retext_scalar f key)))
         = markup_chars (renderEditableForm value (map_prefix pfx key))"
      by (rule "1.IH" [OF _ refl])
    with i kv show ?case by (simp add: markup_char_def)
  qed
  then show ?case
    by (simp add: render_GoMap del: renderEditableForm.simps)
next
  case (2 v pfx)
  have "markup_chars (concat (map (\<lambda>(i, value).
                      ''<li>'' @ renderEditableForm value (slice_prefix pfx' i) @ ''</li>'')
                 (enumerate 0 (map (retext f) v))))
      = markup_chars (concat (map (\<lambda>(i, value).
                      ''<li>'' @ renderEditableForm value (slice_prefix pfx i) @ ''</li>'')
                 (enumerate 0 v)))"
  proof (rule markup_chars_concat_cong, goal_cases)
    case 1
    show ?case by simp
  next
    case (2 i)
    then have i: "i < length v" by simp
    then have "(i, v ! i) \<in> set (enumerate 0 v)"
      by (simp add: in_set_enumerate_eq)
    then have "markup_chars (renderEditableForm (retext f (v ! i)) (slice_prefix pfx' i))
         = markup_chars (renderEditableForm (v ! i) (slice_prefix pfx i))"
      by (rule "2.IH" [OF _ refl])
    with i show ?case by (simp add: nth_enumerate_eq markup_char_def)
  qed
  then show ?case
    by (simp add: render_GoSlice del: renderEditableForm.simps)
qed (simp_all add: number_input_def float_input_def opaque_def)

section \<open>Field paths are unambiguous on plain keys\<close>

lemma step_prefix_text: "step_prefix pfx s = pfx @ step_text s"
  by (cases s) (simp_all add: map_prefix_def slice_prefix_def)

lemma pathOf_text: "pathOf pfx p = pfx @ path_text p"
  unfolding pathOf_def path_text_def
  by (induction p arbitrary: pfx) (simp_all add: step_prefix_text)


lemma path_text_start: "path_text p = [] \<or> separator (hd (path_text p))"
  by (cases p; cases "hd p") (auto simp: path_text_def separator_def)

lemma path_text_Nil_iff: "path_text p = [] \<longleftrightarrow> p = []"
  by (cases p; cases "hd p") (auto simp: path_text_def)

lemma takeWhile_until:
  "\<forall>c\<in>set a. P c \<Longrightarrow> r = [] \<or> \<not> P (hd r) \<Longrightarrow> takeWhile P (a @ r) = a"
  by (cases r) (auto simp: takeWhile_tail)

lemma split_unique:
  assumes "\<forall>c\<in>set a. P c" "\<forall>c\<in>set b. P c"
    and "r = [] \<or> \<not> P (hd r)" "r' = [] \<or> \<not> P (hd r')"
    and "a @ r = b @ r'"
  shows "a = b \<and> r = r'"
proof -
  have "takeWhile P (a @ r) = a"
    by (rule takeWhile_until [OF assms(1) assms(3)])
  moreover have "takeWhile P (b @ r') = b"
    by (rule takeWhile_until [OF assms(2) assms(4)])
  ultimately have "a = b"
    using assms(5) by metis
  with assms(5) show ?thesis by simp
qed

lemma key_split:
  assumes "plain_key k" "plain_key k'"
    and "fmt_v k @ path_text p = fmt_v k' @ path_text q"
  shows "fmt_v k = fmt_v k' \<and> path_text p = path_text q"
proof (rule split_unique [where P = "\<lambda>c. \<not> separator c"])
  show "\<forall>c\<in>set (fmt_v k). \<not> separator c" "\<forall>c\<in>set (fmt_v k'). \<not> separator c"
    using assms(1,2) by (auto simp: plain_key_def separator_def)
  show "path_text p = [] \<or> \<not> \<not> separator (hd (path_text p))"
    "path_text q = [] \<or> \<not> \<not> separator (hd (path_text q))"
    using path_text_start by auto
  show "fmt_v k @ path_text p = fmt_v k' @ path_text q" by (rule assms(3))
qed

lemma index_split:
  assumes "decimal i @ '']'' @ r = decimal j @ '']'' @ r'"
  shows "i = j \<and> r = r'"
proof -
  have d: "\<forall>c\<in>set (decimal n). c \<noteq> CHR '']''" for n
    using decimal_digits [of n] by auto
  have "decimal i = decimal j \<and> '']'' @ r = '']'' @ r'"
    by (rule split_unique [where P = "\<lambda>c. c \<noteq> CHR '']''"]) (use d assms in simp_all)
  then show ?thesis by (simp add: decimal_inj)
qed

lemma child_GoMap:
  "child t (Key k) = Some c \<Longrightarrow> \<exists>v. t = GoMap v \<and> (k, c) \<in> set v"
  by (cases t) (auto dest: map_of_SomeD)

lemma child_GoSlice:
  "child t (Index i) = Some c \<Longrightarrow> \<exists>v. t = GoSlice v \<and> i < length v \<and> c = v ! i"
  by (cases t) (auto split: if_splits)

lemma plain_keys_entry:
  "plain_keys (GoMap v) \<Longrightarrow> (k, c) \<in> set v \<Longrightarrow> plain_key k \<and> plain_keys c"
  by (auto simp: list_all_iff)

lemma plain_keys_same_text:
  assumes "plain_keys (GoMap v)" "(k, c) \<in> set v" "(k', c') \<in> set v" "fmt_v k = fmt_v k'"
  shows "k = k' \<and> c = c'"
proof -
  from assms(1) have "inj_on (\<lambda>(k, c). fmt_v k) (set v)"
    by (simp add: distinct_map)
  then have "(k, c) = (k', c')"
    using assms(2-4) inj_onD [of "\<lambda>(k, c). fmt_v k" "set v" "(k, c)" "(k', c')"] by simp
  then show ?thesis by simp
qed

lemma path_text_inj:
  "plain_keys t \<Longrightarrow> node_at t p = Some a \<Longrightarrow> node_at t q = Some b
    \<Longrightarrow> path_text p = path_text q \<Longrightarrow> p = q"
proof (induction p arbitrary: t q)
  case Nil
  have "path_text [] = []" by (simp add: path_text_def)
  with Nil.prems(4) have "path_text q = []" by simp
  then show ?case by (simp add: path_text_Nil_iff)
next
  case (Cons s p)
  from Cons.prems(4) have "q \<noteq> []"
    using path_text_Nil_iff [of "s # p"] path_text_Nil_iff [of q] by auto
  then obtain s' q' where q: "q = s' # q'" by (cases q) auto
  from Cons.prems(2) obtain c where c: "child t s = Some c" "node_at c p = Some a"
    by (auto split: option.splits)
  from Cons.prems(3) q obtain c' where c': "child t s' = Some c'" "node_at c' q' = Some b"
    by (auto split: option.splits)
  have eq: "step_text s @ path_text p = step_text s' @ path_text q'"
    using Cons.prems(4) q by (simp add: path_text_def)
  show ?case
  proof (cases s)
    case (Key k)
    with c obtain v where v: "t = GoMap v" "(k, c) \<in> set v"
      using child_GoMap by blast
    show ?thesis
    proof (cases s')
      case (Key k')
      with c' v have v': "(k', c') \<in> set v"
        using child_GoMap by blast
      have "fmt_v k = fmt_v k' \<and> path_text p = path_text q'"
        using eq \<open>s = Key k\<close> Key plain_keys_entry [OF _ v(2)] plain_keys_entry [OF _ v'] Cons.prems(1) v(1)
        by (intro key_split) simp_all
      moreover from this have "k = k' \<and> c = c'"
        using plain_keys_same_text [OF _ v(2) v'] Cons.prems(1) v(1) by simp
      moreover have "plain_keys c"
        using plain_keys_entry [OF _ v(2)] Cons.prems(1) v(1) by simp
      ultimately have "p = q'"
        using Cons.IH [of c q'] c(2) c'(2) by simp
      with \<open>k = k' \<and> c = c'\<close> q \<open>s = Key k\<close> Key show ?thesis by simp
    next
      case (Index j)
      with eq \<open>s = Key k\<close> show ?thesis by simp
    qed
  next
    case (Index i)
    with c obtain v where v: "t = GoSlice v" "i < length v" "c = v ! i"
      using child_GoSlice by blast
    show ?thesis
    proof (cases s')
      case (Key k')
      with eq \<open>s = Index i\<close> show ?thesis by simp
    next
      case (Index j)
      with c' v have v': "j < length v" "c' = v ! j"
        using child_GoSlice by fastforce+
      have ij: "i = j \<and> path_text p = path_text q'"
        using eq \<open>s = Index i\<close> Index by (intro index_split) simp
      moreover have "plain_keys c"
        using Cons.prems(1) v by (simp add: list_all_length)
      ultimately have "p = q'"
        using Cons.IH [of c q'] c(2) c'(2) v v' by simp
      with ij q \<open>s = Index i\<close> Index show ?thesis by simp
    qed
  qed
qed

text \<open>The encoder renders the node at a position under the path of that position.\<close>

lemma sublist_concat_member: "x \<in> set xs \<Longrightarrow> sublist x (concat xs)"
proof -
  assume "x \<in> set xs"
  then obtain ys zs where "xs = ys @ x # zs"
    by (auto simp: in_set_conv_decomp)
  then have "concat xs = concat ys @ x @ concat zs" by simp
  then show ?thesis
    unfolding sublist_def by blast
qed

lemma sublist_concat_map: "x \<in> set xs \<Longrightarrow> sublist (f x) (concat (map f xs))"
  by (rule sublist_concat_member) simp

lemma sublist_wrap: "sublist x (a @ x @ b)"
  unfolding sublist_def by blast

lemma child_rendered:
  assumes "child t s = Some c"
  shows "sublist (renderEditableForm c (step_prefix pfx s)) (renderEditableForm t pfx)"
proof (cases s)
  case (Key k)
  with assms obtain v where v: "t = GoMap v" "(k, c) \<in> set v"
    using child_GoMap by blast
  let ?item = "\<lambda>(key, value). ''<li><label>'' @ EscapeString (fmt_v key) @ '':</label> ''
                        @ renderEditableForm value (map_prefix pfx key) @ ''</li>''"
  have "sublist (renderEditableForm c (map_prefix pfx k)) (?item (k, c))"
    using sublist_wrap [of "renderEditableForm c (map_prefix pfx k)"
        "''<li><label>'' @ EscapeString (fmt_v k) @ '':</label> ''" "''</li>''"]
    by simp
  also have "sublist (?item (k, c)) (concat (map ?item v))"
    by (rule sublist_concat_map [OF v(2)])
  also have "sublist (concat (map ?item v)) (renderEditableForm t pfx)"
    unfolding v(1) render_GoMap by (rule sublist_wrap)
  finally show ?thesis using Key by simp
next
  case (Index i)
  with assms obtain v where v: "t = GoSlice v" "i < length v" "c = v ! i"
    using child_GoSlice by blast
  let ?item = "\<lambda>(i, value). ''<li>'' @ renderEditableForm value (slice_prefix pfx i) @ ''</li>''"
  have "sublist (renderEditableForm c (slice_prefix pfx i)) (?item (i, c))"
    using sublist_wrap [of "renderEditableForm c (slice_prefix pfx i)" "''<li>''" "''</li>''"]
    by simp
  also have "sublist (?item (i, c)) (concat (map ?item (enumerate 0 v)))"
  proof (rule sublist_concat_map)
    show "(i, c) \<in> set (enumerate 0 v)"
      using v by (simp add: in_set_enumerate_eq)
  qed
  also have "sublist (concat (map ?item (enumerate 0 v))) (renderEditableForm t pfx)"
    unfolding v(1) render_GoSlice by (rule sublist_wrap)
  finally show ?thesis using Index by simp
qed

lemma node_rendered:
  "node_at t p = Some c \<Longrightarrow>
     sublist (renderEditableForm c (pathOf pfx p)) (renderEditableForm t pfx)"
proof (induction p arbitrary: t pfx)
  case Nil
  then show ?case by (simp add: pathOf_def)
next
  case (Cons s p)
  then obtain d where d: "child t s = Some d" "node_at d p = Some c"
    by (auto split: option.splits)
  have "sublist (renderEditableForm c (pathOf (step_prefix pfx s) p))
          (renderEditableForm d (step_prefix pfx s))"
    by (rule Cons.IH [OF d(2)])
  also have "sublist \<dots> (renderEditableForm t pfx)"
    by (rule child_rendered [OF d(1)])
  finally show ?case by (simp add: pathOf_def)
qed

text \<open>
  C1, as stated, fails. The integer key 1 and the string key \<open>1\<close> of one map are different
  keys with the same child path \<open>root.1\<close>, and the encoder writes two fields of that name;
  the leaf under \<open>a\<close> then \<open>b\<close> shares the path \<open>root.a.b\<close> with the leaf under the
  single key \<open>a.b\<close>; and the leaf at index 0 under \<open>a\<close> shares \<open>root.a[0]\<close> with the leaf
  under the key \<open>a[0]\<close>.
\<close>

theorem path_collision:
  "unique_keys collide1
   \<and> is_leaf collide1 [Key (GoInt 1)] \<and> is_leaf collide1 [Key (GoString ''1'')]
   \<and> GoInt 1 \<noteq> GoString ''1''
   \<and> pathOf ''root'' [Key (GoInt 1)] = ''root.1''
   \<and> pathOf ''root'' [Key (GoString ''1'')] = ''root.1''
   \<and> renderEditableForm collide1 ''root'' =
       ''<ul><li><label>1:</label> <input type=\"text\" name=\"root.1\" value=\"a\" size=\"100\"></li>''
       @ ''<li><label>1:</label> <input type=\"text\" name=\"root.1\" value=\"b\" size=\"100\"></li></ul>''
   \<and> unique_keys collide2
   \<and> is_leaf collide2 [Key (GoString ''a''), Key (GoString ''b'')]
   \<and> is_leaf collide2 [Key (GoString ''a.b'')]
   \<and> pathOf ''root'' [Key (GoString ''a''), Key (GoString ''b'')] = ''root.a.b''
   \<and> pathOf ''root'' [Key (GoString ''a.b'')] = ''root.a.b''
   \<and> unique_keys collide3
   \<and> is_leaf collide3 [Key (GoString ''a''), Index 0]
   \<and> is_leaf collide3 [Key (GoString ''a[0]'')]
   \<and> pathOf ''root'' [Key (GoString ''a''), Index 0] = ''root.a[0]''
   \<and> pathOf ''root'' [Key (GoString ''a[0]'')] = ''root.a[0]''"
  unfolding collide1_def collide2_def collide3_def by code_simp

text \<open>
  C1, amended. In a tree where, in every map, the keys print as pairwise different texts
  that hold neither a dot nor an opening bracket, any two different leaf positions have
  different field paths under every prefix; and the encoder renders each of the two leaves
  under its path, as a part of its output.
\<close>

theorem paths_distinct:
  assumes "plain_keys t" and "is_leaf t p" and "is_leaf t q" and "p \<noteq> q"
  shows "pathOf pfx p \<noteq> pathOf pfx q
    \<and> sublist (renderEditableForm (the (node_at t p)) (pathOf pfx p)) (renderEditableForm t pfx)
    \<and> sublist (renderEditableForm (the (node_at t q)) (pathOf pfx q)) (renderEditableForm t pfx)"
proof -
  from assms(2) obtain a where a: "node_at t p = Some a"
    by (auto split: option.splits)
  from assms(3) obtain b where b: "node_at t q = Some b"
    by (auto split: option.splits)
  have "path_text p \<noteq> path_text q"
    using path_text_inj [OF assms(1) a b] assms(4) by blast
  then have "pathOf pfx p \<noteq> pathOf pfx q"
    by (simp add: pathOf_text)
  with node_rendered [OF a, of pfx] node_rendered [OF b, of pfx] a b show ?thesis
    by simp
qed

theorem paths_distinct_witness:
  "plain_keys sample
   \<and> is_leaf sample [Key (GoString ''gold'')]
   \<and> is_leaf sample [Key (GoString ''flags''), Index 1]
   \<and> pathOf ''root'' [Key (GoString ''gold'')] = ''root.gold''
   \<and> pathOf ''root'' [Key (GoString ''flags''), Index 1] = ''root.flags[1]''
   \<and> pathOf ''root'' [Key (GoString ''gold'')] \<noteq> pathOf ''root'' [Key (GoString ''flags''), Index 1]"
proof -
  have h: "plain_keys sample" "is_leaf sample [Key (GoString ''gold'')]"
    "is_leaf sample [Key (GoString ''flags''), Index 1]"
    "[Key (GoString ''gold'')] \<noteq> [Key (GoString ''flags''), Index 1]"
    unfolding sample_def by code_simp+
  have "pathOf ''root'' [Key (GoString ''gold'')] = ''root.gold''"
    "pathOf ''root'' [Key (GoString ''flags''), Index 1] = ''root.flags[1]''"
    by code_simp+
  with h paths_distinct [OF h, of "''root''"] show ?thesis by blast
qed

section \<open>Character references\<close>

lemma refs_only_append: "refs_only a \<Longrightarrow> refs_only b \<Longrightarrow> refs_only (a @ b)"
  by (induction a) (auto simp: list_ex_iff intro: prefix_prefix)

lemma refs_only_drop: "refs_only (a @ b) \<Longrightarrow> refs_only b"
  by (induction a) auto

lemma refs_only_append_iff [simp]: "refs_only a \<Longrightarrow> refs_only (a @ b) = refs_only b"
  using refs_only_append refs_only_drop by blast

lemma refs_only_concat: "(\<And>x. x \<in> set xs \<Longrightarrow> refs_only x) \<Longrightarrow> refs_only (concat xs)"
  by (induction xs) simp_all

lemma refs_only_plain: "CHR ''&'' \<notin> set s \<Longrightarrow> refs_only s"
  by (induction s) auto

lemma refs_only_escape_char: "refs_only (escape_char c)"
  by (simp add: escape_char_def char_refs_def)

lemma refs_only_EscapeString [simp]: "refs_only (EscapeString s)"
  unfolding EscapeString_def
  by (rule refs_only_concat) (auto simp: refs_only_escape_char)

lemma no_amp_decimal: "CHR ''&'' \<notin> set (decimal n)"
  using decimal_digits [of n] by auto

lemma no_amp_signed_decimal: "CHR ''&'' \<notin> set (signed_decimal i)"
  by (simp add: signed_decimal_def no_amp_decimal)

lemma no_amp_float: "CHR ''&'' \<notin> set (Rep_float_text f)"
  using Rep_float_text [of f] by (auto simp: float_chars_def)

lemma refs_only_number_input:
  "CHR ''&'' \<notin> set (fmt_v v) \<Longrightarrow> refs_only (number_input pfx v)"
  by (simp add: number_input_def refs_only_plain)

lemma refs_only_float_input:
  "CHR ''&'' \<notin> set (fmt_v v) \<Longrightarrow> refs_only (float_input pfx v)"
  by (simp add: float_input_def refs_only_plain)

lemma refs_only_opaque [simp]: "refs_only (opaque v)"
  by (simp add: opaque_def)

lemma refs_only_render: "refs_only (renderEditableForm v pfx)"
proof (induction v pfx rule: renderEditableForm.induct)
  case (1 v pfx)
  have "refs_only (concat (map (\<lambda>(key, value).
                      ''<li><label>'' @ EscapeString (fmt_v key) @ '':</label> ''
                        @ renderEditableForm value (map_prefix pfx key) @ ''</li>'') v))"
    by (rule refs_only_concat) (auto simp: 1)
  then show ?case
    by (simp add: render_GoMap del: renderEditableForm.simps)
next
  case (2 v pfx)
  have "refs_only (concat (map (\<lambda>(i, value).
                      ''<li>'' @ renderEditableForm value (slice_prefix pfx i) @ ''</li>'')
                 (enumerate 0 v)))"
    by (rule refs_only_concat) (auto simp: 2)
  then show ?case
    by (simp add: render_GoSlice del: renderEditableForm.simps)
qed (simp_all add: refs_only_number_input refs_only_float_input no_amp_signed_decimal
    no_amp_float)

lemma unescape_escape_char: "unescape (escape_char c @ rest) = c # unescape rest"
  by (simp add: escape_char_def)

lemma unescape_EscapeString_append: "unescape (EscapeString s @ rest) = s @ unescape rest"
  by (induction s) (simp_all add: EscapeString_def unescape_escape_char del: unescape.simps)

lemma unescape_EscapeString: "unescape (EscapeString s) = s"
  using unescape_EscapeString_append [of s "[]"] by simp

lemma EscapeString_inj: "EscapeString s = EscapeString s' \<Longrightarrow> s = s'"
  by (metis unescape_EscapeString)

lemma no_quote_EscapeString: "CHR 0x22 \<notin> set (EscapeString s)"
  using markup_chars_EscapeString [of s]
  by (auto simp: markup_chars_def filter_empty_conv markup_char_def)

lemma text_field_inj:
  assumes "renderEditableForm (GoScalar (GoString s)) pfx
         = renderEditableForm (GoScalar (GoString s')) pfx'"
  shows "s = s' \<and> pfx = pfx'"
proof -
  let ?tail = "\<lambda>s. ''\" value=\"'' @ EscapeString s @ ''\" size=\"100\">''"
  from assms have eq: "EscapeString pfx @ ?tail s = EscapeString pfx' @ ?tail s'"
    by simp
  have "EscapeString pfx = EscapeString pfx' \<and> ?tail s = ?tail s'"
  proof (rule split_unique [where P = "\<lambda>c. c \<noteq> CHR 0x22"])
    show "\<forall>c\<in>set (EscapeString pfx). c \<noteq> CHR 0x22" "\<forall>c\<in>set (EscapeString pfx'). c \<noteq> CHR 0x22"
      using no_quote_EscapeString by auto
    show "?tail s = [] \<or> \<not> hd (?tail s) \<noteq> CHR 0x22" "?tail s' = [] \<or> \<not> hd (?tail s') \<noteq> CHR 0x22"
      by simp_all
    show "EscapeString pfx @ ?tail s = EscapeString pfx' @ ?tail s'"
      by (rule eq)
  qed
  then have "EscapeString pfx = EscapeString pfx'" "EscapeString s = EscapeString s'"
    by simp_all
  then show ?thesis
    by (simp add: EscapeString_inj)
qed



section \<open>The order of a map\<close>

text \<open>
  C2. The same Go map, visited by \<^verbatim>\<open>range\<close> in its two possible orders, gives two
  different markup strings: the encoder's output is not determined by its inputs.
\<close>

theorem map_order_changes_markup:
  "mset [(GoString ''a'', GoScalar (GoInt 1)), (GoString ''b'', GoScalar (GoInt 2))]
     = mset [(GoString ''b'', GoScalar (GoInt 2)), (GoString ''a'', GoScalar (GoInt 1))]
   \<and> renderEditableForm
        (GoMap [(GoString ''a'', GoScalar (GoInt 1)), (GoString ''b'', GoScalar (GoInt 2))]) ''root''
     = ''<ul><li><label>a:</label> <input type=\"number\" name=\"root.a\" value=\"1\"></li>''
       @ ''<li><label>b:</label> <input type=\"number\" name=\"root.b\" value=\"2\"></li></ul>''
   \<and> renderEditableForm
        (GoMap [(GoString ''b'', GoScalar (GoInt 2)), (GoString ''a'', GoScalar (GoInt 1))]) ''root''
     = ''<ul><li><label>b:</label> <input type=\"number\" name=\"root.b\" value=\"2\"></li>''
       @ ''<li><label>a:</label> <input type=\"number\" name=\"root.a\" value=\"1\"></li></ul>''"
proof (intro conjI)
  show "mset [(GoString ''a'', GoScalar (GoInt 1)), (GoString ''b'', GoScalar (GoInt 2))]
     = mset [(GoString ''b'', GoScalar (GoInt 2)), (GoString ''a'', GoScalar (GoInt 1))]"
    by (simp add: add.commute)
qed code_simp+

section \<open>The handlers\<close>

text \<open>
  C7, as stated, fails: a \<^verbatim>\<open>GET\<close> to \<^verbatim>\<open>/upload\<close> is answered with status 405, not 400.
\<close>

theorem upload_wrong_method_is_405:
  "status (fst (uploadHandler (\<lambda>_. None) (\<lambda>_. None) get_upload)) = 405
   \<and> status (fst (uploadHandler (\<lambda>_. None) (\<lambda>_. None) get_upload)) \<noteq> 400"
  by (simp add: uploadHandler_def get_upload_def http_Error_def StatusMethodNotAllowed_def)

text \<open>
  C7, amended. For every request whose method is not \<^verbatim>\<open>POST\<close>, \<open>uploadHandler\<close> answers
  with status 405 and the message \<^verbatim>\<open>Only POST method is allowed\<close>, and writing that reply
  is all it does: it neither asks for the uploaded file nor reads it.
\<close>

theorem upload_wrong_method:
  assumes "Method r \<noteq> ''POST''"
  shows "uploadHandler zipNewReader Load r =
           (http_Error ''Only POST method is allowed'' StatusMethodNotAllowed, [Reply])
    \<and> status (fst (uploadHandler zipNewReader Load r)) = 405
    \<and> FormFile \<notin> set (snd (uploadHandler zipNewReader Load r))
    \<and> ReadAll \<notin> set (snd (uploadHandler zipNewReader Load r))"
  using assms by (simp add: uploadHandler_def http_Error_def StatusMethodNotAllowed_def)

theorem upload_wrong_method_witness:
  "Method get_upload \<noteq> ''POST''
   \<and> uploadHandler (\<lambda>_. None) (\<lambda>_. None) get_upload =
       (\<lparr>status = 405, content_type = Some ''text/plain; charset=utf-8'',
         body = ''Only POST method is allowed'' @ [newline]\<rparr>, [Reply])"
proof -
  have m: "Method get_upload \<noteq> ''POST''"
    by (simp add: get_upload_def)
  from upload_wrong_method [OF m, of "\<lambda>_. None" "\<lambda>_. None"] m show ?thesis
    by (simp add: http_Error_def StatusMethodNotAllowed_def)
qed

lemma collect_keys: "foldl (\<lambda>keys (key, values). keys @ [key]) ks form = ks @ map fst form"
  by (induction form arbitrary: ks) (simp_all add: case_prod_unfold)

lemma saveHandler_ok:
  "Method r = ''POST'' \<Longrightarrow> ParseForm r = Some form \<Longrightarrow>
    saveHandler r =
      (\<lparr>status = StatusOK, content_type = None,
        body = ''Changes received. Rebuilding the save file is the next step.''\<rparr>,
       Print (''Received form data:'' @ [newline]) # map (log_line form) (sort (map fst form))
         @ [Reply])"
  by (simp add: saveHandler_def collect_keys)

lemma same_form_values:
  assumes "distinct (map fst form)" "distinct (map fst form')" "set form = set form'"
  shows "form_values form = form_values form'"
proof -
  have "map_of form = map_of form'"
    using assms by (simp add: map_of_inject_set)
  then show ?thesis
    by (simp add: form_values_def fun_eq_iff)
qed

lemma same_sorted_keys:
  assumes "distinct (map fst form)" "distinct (map fst form')" "set form = set form'"
  shows "sort (map fst form) = sort (map fst form')"
proof -
  have "set (map fst form) = set (map fst form')"
    using assms(3) by simp
  with assms(1,2) have "mset (map fst form) = mset (map fst form')"
    by (metis set_eq_iff_mset_eq_distinct)
  then show ?thesis
    by (metis properties_for_sort sorted_sort mset_sort)
qed

text \<open>
  C8, as stated, fails. \<open>saveHandler\<close> calls \<^verbatim>\<open>ParseForm\<close>, which does not read a
  \<^verbatim>\<open>multipart/form-data\<close> body: a multipart \<^verbatim>\<open>POST\<close> that submits two fields gets the
  200 reply after the heading alone, with no field logged.
\<close>

theorem multipart_fields_not_logged:
  "Method multipart_save = ''POST''
   \<and> form_fields multipart_save =
       [(''root.gold'', [''150'']), (''root.flags[0]'', [''false'', ''true''])]
   \<and> saveHandler multipart_save =
       (\<lparr>status = 200, content_type = None,
         body = ''Changes received. Rebuilding the save file is the next step.''\<rparr>,
        [Print (''Received form data:'' @ [newline]), Reply])"
  unfolding multipart_save_def post_save_def by code_simp

text \<open>
  C8, amended. \<open>saveHandler\<close> answers 405 when the method is not \<^verbatim>\<open>POST\<close>; otherwise 500
  when \<^verbatim>\<open>ParseForm\<close> fails; otherwise it prints the heading and one line per field of
  \<^verbatim>\<open>PostForm\<close>, the field names in increasing lexicographic order, and then replies 200
  with the placeholder text; the order in which \<^verbatim>\<open>range\<close> visits the form does not show.
  The fields of \<^verbatim>\<open>PostForm\<close> are the submitted fields when the body is url-encoded; for
  a multipart body, or a body of another type, there are none and only the heading is
  printed.
\<close>

theorem save_handler:
  "(Method r \<noteq> ''POST'' \<longrightarrow>
      saveHandler r = (http_Error ''Only POST method is allowed'' StatusMethodNotAllowed, [Reply])
      \<and> status (fst (saveHandler r)) = 405)
   \<and> (Method r = ''POST'' \<and> ParseForm r = None \<longrightarrow>
      saveHandler r = (http_Error ''Error parsing form'' StatusInternalServerError, [Reply])
      \<and> status (fst (saveHandler r)) = 500)
   \<and> (Method r = ''POST'' \<and> ParseForm r = Some form \<longrightarrow>
      status (fst (saveHandler r)) = 200
      \<and> body (fst (saveHandler r)) = ''Changes received. Rebuilding the save file is the next step.''
      \<and> (\<exists>keys. sorted keys \<and> mset keys = mset (map fst form)
            \<and> snd (saveHandler r) =
                Print (''Received form data:'' @ [newline]) # map (log_line form) keys @ [Reply])
      \<and> (\<forall>r' form'. Method r' = ''POST'' \<and> ParseForm r' = Some form'
              \<and> distinct (map fst form) \<and> distinct (map fst form') \<and> set form = set form' \<longrightarrow>
            saveHandler r' = saveHandler r))
   \<and> (parses r \<and> Content_Type r = FormUrlEncoded \<longrightarrow> ParseForm r = Some (form_fields r))
   \<and> (parses r \<and> Content_Type r \<noteq> FormUrlEncoded \<longrightarrow> ParseForm r = Some [])
   \<and> (\<not> parses r \<longrightarrow> ParseForm r = None)
   \<and> (Method r = ''POST'' \<and> parses r \<and> Content_Type r \<noteq> FormUrlEncoded \<longrightarrow>
        snd (saveHandler r) = [Print (''Received form data:'' @ [newline]), Reply])"
proof (intro conjI impI allI)
  show "saveHandler r = (http_Error ''Only POST method is allowed'' StatusMethodNotAllowed, [Reply])"
    "status (fst (saveHandler r)) = 405" if "Method r \<noteq> ''POST''"
    using that by (simp_all add: saveHandler_def http_Error_def StatusMethodNotAllowed_def)
  show "saveHandler r = (http_Error ''Error parsing form'' StatusInternalServerError, [Reply])"
    "status (fst (saveHandler r)) = 500" if "Method r = ''POST'' \<and> ParseForm r = None"
    using that by (simp_all add: saveHandler_def http_Error_def StatusInternalServerError_def)
  show "ParseForm r = Some (form_fields r)" if "parses r \<and> Content_Type r = FormUrlEncoded"
    using that by (simp add: ParseForm_def)
  show "ParseForm r = Some []" if "parses r \<and> Content_Type r \<noteq> FormUrlEncoded"
    using that by (simp add: ParseForm_def)
  show "ParseForm r = None" if "\<not> parses r"
    using that by (simp add: ParseForm_def)
  show "snd (saveHandler r) = [Print (''Received form data:'' @ [newline]), Reply]"
    if "Method r = ''POST'' \<and> parses r \<and> Content_Type r \<noteq> FormUrlEncoded"
    using that saveHandler_ok [of r "[]"] by (simp add: ParseForm_def)
next
  assume ok: "Method r = ''POST'' \<and> ParseForm r = Some form"
  then have s: "saveHandler r =
      (\<lparr>status = StatusOK, content_type = None,
        body = ''Changes received. Rebuilding the save file is the next step.''\<rparr>,
       Print (''Received form data:'' @ [newline]) # map (log_line form) (sort (map fst form))
         @ [Reply])"
    by (simp add: saveHandler_ok)
  show "status (fst (saveHandler r)) = 200"
    "body (fst (saveHandler r)) = ''Changes received. Rebuilding the save file is the next step.''"
    by (simp_all add: s StatusOK_def)
  have "sorted (sort (map fst form)) \<and> mset (sort (map fst form)) = mset (map fst form)"
    by simp
  with s show "\<exists>keys. sorted keys \<and> mset keys = mset (map fst form)
            \<and> snd (saveHandler r) =
                Print (''Received form data:'' @ [newline]) # map (log_line form) keys @ [Reply]"
    by (intro exI [of _ "sort (map fst form)"]) simp
  fix r' form'
  assume same: "Method r' = ''POST'' \<and> ParseForm r' = Some form'
      \<and> distinct (map fst form) \<and> distinct (map fst form') \<and> set form = set form'"
  have "saveHandler r' =
      (\<lparr>status = StatusOK, content_type = None,
        body = ''Changes received. Rebuilding the save file is the next step.''\<rparr>,
       Print (''Received form data:'' @ [newline]) # map (log_line form') (sort (map fst form'))
         @ [Reply])"
    using same by (intro saveHandler_ok) simp_all
  moreover have "log_line form' = log_line form"
    using same same_form_values [of form form'] by (simp add: log_line_def fun_eq_iff)
  moreover have "sort (map fst form') = sort (map fst form)"
    using same same_sorted_keys [of form form'] by simp
  ultimately show "saveHandler r' = saveHandler r"
    using s by simp
qed

theorem save_handler_witness:
  "saveHandler post_save =
     (\<lparr>status = 200, content_type = None,
       body = ''Changes received. Rebuilding the save file is the next step.''\<rparr>,
      [Print (''Received form data:'' @ [newline]),
       Print (''  root.flags[0]: [false true]'' @ [newline]),
       Print (''  root.gold: [150]'' @ [newline]), Reply])
   \<and> status (fst (saveHandler (post_save\<lparr>Method := ''GET''\<rparr>))) = 405
   \<and> status (fst (saveHandler (post_save\<lparr>parses := False\<rparr>))) = 500
   \<and> saveHandler (post_save\<lparr>form_fields :=
         [(''root.flags[0]'', [''false'', ''true'']), (''root.gold'', [''150''])]\<rparr>)
       = saveHandler post_save
   \<and> snd (saveHandler multipart_save) = [Print (''Received form data:'' @ [newline]), Reply]"
proof -
  let ?f = "[(''root.gold'', [''150'']), (''root.flags[0]'', [''false'', ''true''])]"
  let ?f' = "[(''root.flags[0]'', [''false'', ''true'']), (''root.gold'', [''150''])]"
  have s: "saveHandler post_save =
     (\<lparr>status = 200, content_type = None,
       body = ''Changes received. Rebuilding the save file is the next step.''\<rparr>,
      [Print (''Received form data:'' @ [newline]),
       Print (''  root.flags[0]: [false true]'' @ [newline]),
       Print (''  root.gold: [150]'' @ [newline]), Reply])"
    unfolding post_save_def by code_simp
  have g: "Method (post_save\<lparr>Method := ''GET''\<rparr>) \<noteq> ''POST''"
    by simp
  have n: "Method (post_save\<lparr>parses := False\<rparr>) = ''POST''
      \<and> ParseForm (post_save\<lparr>parses := False\<rparr>) = None"
    by (simp add: post_save_def ParseForm_def)
  have p: "Method post_save = ''POST'' \<and> ParseForm post_save = Some ?f"
    by (simp add: post_save_def ParseForm_def)
  have p': "Method (post_save\<lparr>form_fields := ?f'\<rparr>) = ''POST''
      \<and> ParseForm (post_save\<lparr>form_fields := ?f'\<rparr>) = Some ?f'"
    by (simp add: post_save_def ParseForm_def)
  have d: "distinct (map fst ?f) \<and> distinct (map fst ?f') \<and> set ?f = set ?f'"
    by auto
  have m: "Method multipart_save = ''POST'' \<and> parses multipart_save
      \<and> Content_Type multipart_save \<noteq> FormUrlEncoded"
    by (simp add: multipart_save_def post_save_def)
  have 1: "status (fst (saveHandler (post_save\<lparr>Method := ''GET''\<rparr>))) = 405"
    using g save_handler [of "post_save\<lparr>Method := ''GET''\<rparr>", THEN conjunct1] by blast
  have 2: "status (fst (saveHandler (post_save\<lparr>parses := False\<rparr>))) = 500"
    using n save_handler [of "post_save\<lparr>parses := False\<rparr>", THEN conjunct2, THEN conjunct1]
    by blast
  have "\<forall>r' form'. Method r' = ''POST'' \<and> ParseForm r' = Some form'
          \<and> distinct (map fst ?f) \<and> distinct (map fst form') \<and> set ?f = set form' \<longrightarrow>
        saveHandler r' = saveHandler post_save"
    using p save_handler [of post_save ?f, THEN conjunct2, THEN conjunct2, THEN conjunct1]
    by blast
  then have 3: "saveHandler (post_save\<lparr>form_fields := ?f'\<rparr>) = saveHandler post_save"
    using p' d by blast
  have 4: "snd (saveHandler multipart_save) = [Print (''Received form data:'' @ [newline]), Reply]"
    using m save_handler [of multipart_save, THEN conjunct2, THEN conjunct2, THEN conjunct2,
        THEN conjunct2, THEN conjunct2, THEN conjunct2]
    by blast
  from s 1 2 3 4 show ?thesis by (intro conjI)
qed

lemma rooted_cleanPath: "rooted (cleanPath p)"
  by (simp add: cleanPath_def rooted_def path_Clean_def Let_def)

lemma no_slash_redirect: "path \<noteq> [] \<Longrightarrow> \<not> shouldRedirect routes path"
  by (auto simp: shouldRedirect_def routes_def snoc_eq_iff_butlast)

lemma mux_root:
  assumes "rooted path" "path \<noteq> ''/upload''" "path \<noteq> ''/save''"
  shows "mux_handler routes path = Some (''/'', RootHandler)"
  using assms by (auto simp: routes_def pathMatch_def rooted_def)

lemma serve_canonical:
  assumes "cleanPath (URL_Path r) = URL_Path r"
  shows "serve urlString zipNewReader Load r = dispatch zipNewReader Load r"
proof -
  have "rooted (URL_Path r)"
    using rooted_cleanPath [of "URL_Path r"] assms by simp
  then have "URL_Path r \<noteq> []" "URL_Path r \<noteq> ''*''"
    by (auto simp: rooted_def)
  then show ?thesis
    using assms no_slash_redirect [of "URL_Path r"] by (simp add: serve_def)
qed




end
